theory Spec2Isabelle
  imports Main
begin

section \<open>Python values\<close>

text \<open>
  The exceptions the worker can raise without catching them: a missing dictionary key,
  subscripting \<open>None\<close>, and \<open>list.remove\<close> of an absent element.
\<close>

datatype exn = KeyError | TypeError | ValueError

text \<open>
  Keys of the \<open>active_games\<close> dictionary. Python never identifies the integer \<open>7\<close> with
  the string \<open>"7"\<close>, so the two kinds of key are kept apart.
\<close>

datatype pykey = IntKey int | StrKey string

text \<open>\<open>str\<close> of an integer: its decimal digits, with a minus sign when negative.\<close>

definition digit_char :: "nat \<Rightarrow> char" where
  "digit_char d = ''0123456789'' ! d"

function str_nat :: "nat \<Rightarrow> string" where
  "str_nat n = (if n < 10 then [digit_char n] else str_nat (n div 10) @ [digit_char (n mod 10)])"
  by pat_completeness auto
termination
  by (relation "measure id") auto

declare str_nat.simps [simp del]

definition str_int :: "int \<Rightarrow> string" where
  "str_int i = (if i < 0 then CHR ''-'' # str_nat (nat (- i)) else str_nat (nat i))"

fun str_key :: "pykey \<Rightarrow> string" where
  "str_key (IntKey i) = str_int i"
| "str_key (StrKey s) = s"

text \<open>Reading a decimal string back; used to show that \<open>str_nat\<close> is injective.\<close>

definition digit_val :: "char \<Rightarrow> nat" where
  "digit_val c = of_char c - 48"

lemma below_ten: "d < 10 \<Longrightarrow> d \<in> {0, 1, 2, 3, 4, 5, 6, 7, 8, 9::nat}"
  by auto

definition nat_of_digits :: "string \<Rightarrow> nat" where
  "nat_of_digits s = foldl (\<lambda>a c. 10 * a + digit_val c) 0 s"

lemma digit_val_digit_char: "d < 10 \<Longrightarrow> digit_val (digit_char d) = d"
  by (drule below_ten) (auto simp: digit_val_def digit_char_def)

lemma nat_of_digits_snoc: "nat_of_digits (s @ [c]) = 10 * nat_of_digits s + digit_val c"
  by (simp add: nat_of_digits_def)

lemma nat_of_digits_str_nat: "nat_of_digits (str_nat n) = n"
proof (induction n rule: str_nat.induct)
  case (1 n)
  show ?case
  proof (cases "n < 10")
    case True
    then show ?thesis
      by (subst str_nat.simps) (simp add: nat_of_digits_def digit_val_digit_char)
  next
    case False
    with 1 have "nat_of_digits (str_nat (n div 10)) = n div 10" by simp
    with False show ?thesis
      by (subst str_nat.simps) (simp add: nat_of_digits_snoc digit_val_digit_char)
  qed
qed

lemma str_nat_inj: "str_nat m = str_nat n \<Longrightarrow> m = n"
  by (metis nat_of_digits_str_nat)

section \<open>One room: \<open>GameState\<close>\<close>

record answer =
  question_id :: int
  score :: int

record user =
  channel_name :: string
  username :: string
  answers :: "answer list"

record GameState =
  code :: string
  users :: "user list"
  running :: bool

definition GameState_init :: "string \<Rightarrow> GameState" where
  "GameState_init c = \<lparr>code = c, users = [], running = False\<rparr>"

text \<open>\<open>GameState.start_game\<close>: the returned flag and the room afterwards.\<close>

definition GameState_start_game :: "GameState \<Rightarrow> bool \<times> GameState" where
  "GameState_start_game g = (if running g then (False, g) else (True, g\<lparr>running := True\<rparr>))"

definition is_game_running :: "GameState \<Rightarrow> bool" where
  "is_game_running g = running g"

fun username_available :: "user list \<Rightarrow> string \<Rightarrow> bool" where
  "username_available [] name = True"
| "username_available (u # us) name = (if username u = name then False else username_available us name)"

definition is_username_available :: "GameState \<Rightarrow> string \<Rightarrow> bool" where
  "is_username_available g name = username_available (users g) name"

lemma username_available_iff: "username_available us name \<longleftrightarrow> name \<notin> set (map username us)"
  by (induction us) auto

text \<open>The suffix \<open>f" #{index}"\<close> of \<open>GameState.add_user\<close>.\<close>

definition suffixed :: "string \<Rightarrow> nat \<Rightarrow> string" where
  "suffixed name index = name @ '' #'' @ str_nat index"

lemma suffixed_inj: "suffixed name i = suffixed name j \<Longrightarrow> i = j"
  by (simp add: suffixed_def str_nat_inj)

lemma finite_taken_indices: "finite {k. suffixed name k \<in> set (map username us)}"
proof -
  have "inj (suffixed name)"
    by (rule injI) (rule suffixed_inj)
  then have "finite (suffixed name -` set (map username us))"
    by (intro finite_vimageI) simp_all
  then show ?thesis
    by (simp add: vimage_def)
qed

text \<open>
  The \<open>while\<close> loop of \<open>GameState.add_user\<close>: count upwards from \<open>index\<close> until the suffixed
  name is free. It ends because only finitely many indices can be taken by the members.
\<close>

function free_index :: "user list \<Rightarrow> string \<Rightarrow> nat \<Rightarrow> nat" where
  "free_index us name index =
     (if \<not> username_available us (suffixed name index) then free_index us name (index + 1) else index)"
  by pat_completeness auto
termination
proof (relation "measure (\<lambda>(us, name, index). card {k. index \<le> k \<and> suffixed name k \<in> set (map username us)})")
  show "wf (measure (\<lambda>(us, name, index). card {k. index \<le> k \<and> suffixed name k \<in> set (map username us)}))"
    by simp
next
  fix us :: "user list" and name :: string and index :: nat
  assume taken: "\<not> username_available us (suffixed name index)"
  let ?S = "\<lambda>i. {k. i \<le> k \<and> suffixed name k \<in> set (map username us)}"
  have fin: "finite (?S index)"
    by (rule finite_subset [OF _ finite_taken_indices [of name us]]) auto
  have "index \<in> ?S index"
    using taken by (simp add: username_available_iff)
  moreover have "index \<notin> ?S (index + 1)"
    by simp
  moreover have "?S (index + 1) \<subseteq> ?S index"
    by auto
  ultimately have "?S (index + 1) \<subset> ?S index"
    by blast
  then have "card (?S (index + 1)) < card (?S index)"
    using fin by (rule psubset_card_mono [rotated])
  then show "((us, name, index + 1), (us, name, index))
      \<in> measure (\<lambda>(us, name, index). card {k. index \<le> k \<and> suffixed name k \<in> set (map username us)})"
    by simp
qed

declare free_index.simps [simp del]

text \<open>\<open>GameState.add_user\<close>: the final username and the room with the new member appended.\<close>

definition GameState_add_user :: "GameState \<Rightarrow> string \<Rightarrow> string \<Rightarrow> string \<times> GameState" where
  "GameState_add_user g cn name =
     (let name' = (if \<not> is_username_available g name
                   then suffixed name (free_index (users g) name 2) else name)
      in (name', g\<lparr>users := users g @ [\<lparr>channel_name = cn, username = name', answers = []\<rparr>]\<rparr>))"

fun get_user :: "user list \<Rightarrow> string \<Rightarrow> user option" where
  "get_user [] cn = None"
| "get_user (u # us) cn = (if channel_name u = cn then Some u else get_user us cn)"

text \<open>
  \<open>GameState.remove_user\<close>: \<open>self.users.remove(self.get_user(channel_name))\<close>; when the
  handle is not a member, \<open>get_user\<close> gives \<open>None\<close> and \<open>list.remove(None)\<close> raises.
\<close>

definition GameState_remove_user :: "GameState \<Rightarrow> string \<Rightarrow> exn + GameState" where
  "GameState_remove_user g cn =
     (case get_user (users g) cn of
        None \<Rightarrow> Inl ValueError
      | Some u \<Rightarrow> Inr (g\<lparr>users := remove1 u (users g)\<rparr>))"

fun count_answers :: "answer list \<Rightarrow> int \<Rightarrow> int" where
  "count_answers [] s = s"
| "count_answers (q # qs) s = count_answers qs (s + score q)"

definition count_user_score :: "user \<Rightarrow> int" where
  "count_user_score u = count_answers (answers u) 0"

fun answered :: "answer list \<Rightarrow> int \<Rightarrow> bool" where
  "answered [] qid = False"
| "answered (q # qs) qid = (if question_id q = qid then True else answered qs qid)"

text \<open>
  The in-place \<open>user['answers'].append\<close> of \<open>set_answer\<close>: the dictionary changed is the
  one \<open>get_user\<close> returned, the first member with that handle.
\<close>

fun append_answer :: "user list \<Rightarrow> string \<Rightarrow> answer \<Rightarrow> user list" where
  "append_answer [] cn a = []"
| "append_answer (u # us) cn a =
     (if channel_name u = cn then u\<lparr>answers := answers u @ [a]\<rparr> # us
      else u # append_answer us cn a)"

text \<open>
  \<open>GameState.set_answer\<close>: \<open>False\<close> and no change when the question is already answered;
  subscripting the \<open>None\<close> that \<open>get_user\<close> gives for a stranger raises \<open>TypeError\<close>.
\<close>

definition set_answer :: "GameState \<Rightarrow> string \<Rightarrow> int \<Rightarrow> int \<Rightarrow> exn + (bool \<times> GameState)" where
  "set_answer g cn qid sc =
     (case get_user (users g) cn of
        None \<Rightarrow> Inl TypeError
      | Some u \<Rightarrow>
          if answered (answers u) qid then Inr (False, g)
          else Inr (True, g\<lparr>users := append_answer (users g) cn \<lparr>question_id = qid, score = sc\<rparr>\<rparr>))"

definition get_all_scores :: "GameState \<Rightarrow> (string \<times> int) list" where
  "get_all_scores g = map (\<lambda>u. (username u, count_user_score u)) (users g)"

definition get_list_of_usernames :: "GameState \<Rightarrow> string list" where
  "get_list_of_usernames g = map username (users g)"

definition get_list_of_users_channels :: "GameState \<Rightarrow> string list" where
  "get_list_of_users_channels g = map channel_name (users g)"

section \<open>The worker: \<open>GameWorker\<close>\<close>

text \<open>
  Modelled from the spec: the \<open>Question\<close> model of \<open>game.models\<close> is not among the sources;
  the fields the worker reads are the prompt, the answer choices and the index of the
  correct choice.
\<close>

record question =
  content :: string
  choices :: "string list"
  correct_answer :: int

text \<open>The dictionary \<open>{'id': ..., 'correct_answer': ...}\<close> kept in \<open>self.current_question\<close>.\<close>

record asked =
  asked_id :: int
  asked_correct_answer :: int

text \<open>
  The worker's attributes. There is one \<open>current_question\<close> for the whole worker, \<open>None\<close>
  until the first question of any room is asked.
\<close>

record GameWorker =
  active_games :: "pykey \<rightharpoonup> GameState"
  current_players :: "string \<rightharpoonup> pykey"
  current_question :: "asked option"

definition GameWorker_init :: GameWorker where
  "GameWorker_init = \<lparr>active_games = Map.empty, current_players = Map.empty, current_question = None\<rparr>"

definition QUESTION_LENGTH :: nat where
  "QUESTION_LENGTH = 10"

text \<open>The events handed to the channel layer, and the round task a start spawns.\<close>

datatype message =
    Error string
  | Game_created string
  | Join_successful string
  | Show_users "string list"
  | Question_end int bool
  | Game_started
  | Ask_question int nat string "string list"
  | Game_ended "(string \<times> int) list"

datatype effect =
    Send string message
  | Group_send pykey message
  | Group_add pykey string
  | Group_discard pykey string
  | Create_task pykey

text \<open>
  What a handler leaves behind: the worker's state, the effects issued in order, and the
  exception that ended it, if one did. State changed before a raise stays changed.
\<close>

type_synonym outcome = "GameWorker \<times> effect list \<times> exn option"

definition and_then :: "outcome \<Rightarrow> (GameWorker \<Rightarrow> outcome) \<Rightarrow> outcome" where
  "and_then r f =
     (case r of
        (w, es, Some e) \<Rightarrow> (w, es, Some e)
      | (w, es, None) \<Rightarrow> (case f w of (w', es', r') \<Rightarrow> (w', es @ es', r')))"

definition state_of :: "outcome \<Rightarrow> GameWorker" where
  "state_of r = fst r"

definition effects_of :: "outcome \<Rightarrow> effect list" where
  "effects_of r = fst (snd r)"

definition raised :: "outcome \<Rightarrow> exn option" where
  "raised r = snd (snd r)"

text \<open>
  \<open>_get_new_game_code\<close>: the successive results of \<open>random.randint(0, 99)\<close> are the list
  \<open>draws\<close>. The lookup uses the integer drawn, the returned code is its \<open>str\<close>. The loop
  has not returned when the draws are used up: \<open>None\<close>.
\<close>

fun get_new_game_code :: "GameWorker \<Rightarrow> int list \<Rightarrow> string option" where
  "get_new_game_code w [] = None"
| "get_new_game_code w (c # draws) =
     (if active_games w (IntKey c) = None then Some (str_int c) else get_new_game_code w draws)"

definition send_error :: "GameWorker \<Rightarrow> string \<Rightarrow> string \<Rightarrow> outcome" where
  "send_error w cn msg = (w, [Send cn (Error msg)], None)"

definition remove_player_from_game :: "GameWorker \<Rightarrow> string \<Rightarrow> outcome" where
  "remove_player_from_game w cn =
     (case current_players w cn of
        None \<Rightarrow> (w, [], Some KeyError)
      | Some gc \<Rightarrow>
          (case active_games w gc of
             None \<Rightarrow> (w, [], Some KeyError)
           | Some g \<Rightarrow>
               (case GameState_remove_user g cn of
                  Inl e \<Rightarrow> (w, [], Some e)
                | Inr g' \<Rightarrow>
                    (w\<lparr>active_games := (active_games w)(gc \<mapsto> g'),
                       current_players := (current_players w)(cn := None)\<rparr>,
                     [Group_discard gc cn], None))))"

text \<open>\<open>_add_player_to_game\<close>, with the username it returns.\<close>

definition add_player_to_game ::
  "GameWorker \<Rightarrow> string \<Rightarrow> string \<Rightarrow> pykey \<Rightarrow> exn + (string \<times> GameWorker \<times> effect list)" where
  "add_player_to_game w cn name gc =
     (case active_games w gc of
        None \<Rightarrow> Inl KeyError
      | Some g \<Rightarrow>
          (case GameState_add_user g cn name of
             (new_username, g') \<Rightarrow>
               Inr (new_username,
                    w\<lparr>active_games := (active_games w)(gc \<mapsto> g'),
                      current_players := (current_players w)(cn \<mapsto> gc)\<rparr>,
                    [Group_add gc cn])))"

fun remove_players :: "GameWorker \<Rightarrow> string list \<Rightarrow> outcome" where
  "remove_players w [] = (w, [], None)"
| "remove_players w (p # ps) =
     and_then (remove_player_from_game w p) (\<lambda>w'. remove_players w' ps)"

definition remove_game :: "GameWorker \<Rightarrow> pykey \<Rightarrow> outcome" where
  "remove_game w gc =
     (case active_games w gc of
        None \<Rightarrow> (w, [], Some KeyError)
      | Some g \<Rightarrow>
          and_then (remove_players w (get_list_of_users_channels g))
            (\<lambda>w'. case active_games w' gc of
                     None \<Rightarrow> (w', [], Some KeyError)
                   | Some _ \<Rightarrow> (w'\<lparr>active_games := (active_games w')(gc := None)\<rparr>, [], None)))"

text \<open>\<open>_ask_question\<close>, up to its sleep.\<close>

definition ask_question :: "GameWorker \<Rightarrow> pykey \<Rightarrow> question \<Rightarrow> int \<Rightarrow> outcome" where
  "ask_question w gc q qid =
     (w\<lparr>current_question := Some \<lparr>asked_id = qid, asked_correct_answer = correct_answer q\<rparr>\<rparr>,
      [Group_send gc (Ask_question qid QUESTION_LENGTH (content q) (choices q))], None)"

text \<open>
  \<open>_get_random_questions\<close>: the first \<open>amount\<close> questions of the randomly ordered query,
  whose order \<open>shuffled\<close> is the database's choice.
\<close>

definition get_random_questions :: "question list \<Rightarrow> nat \<Rightarrow> question list" where
  "get_random_questions shuffled amount = take amount shuffled"

text \<open>The \<open>for i, q in enumerate(questions)\<close> loop of \<open>_run_game\<close>, from index \<open>i\<close> on.\<close>

fun ask_questions :: "GameWorker \<Rightarrow> pykey \<Rightarrow> question list \<Rightarrow> int \<Rightarrow> outcome" where
  "ask_questions w gc [] i = (w, [], None)"
| "ask_questions w gc (q # qs) i =
     and_then (ask_question w gc q i) (\<lambda>w'. ask_questions w' gc qs (i + 1))"

text \<open>The end of \<open>_run_game\<close>, after the last sleep: the scoreboard, then \<open>_remove_game\<close>.\<close>

definition end_game :: "GameWorker \<Rightarrow> pykey \<Rightarrow> outcome" where
  "end_game w gc =
     (case active_games w gc of
        None \<Rightarrow> (w, [], Some KeyError)
      | Some g \<Rightarrow>
          and_then (w, [Group_send gc (Game_ended (get_all_scores g))], None)
            (\<lambda>w'. remove_game w' gc))"

text \<open>\<open>_run_game\<close> when no other handler runs during its sleeps.\<close>

definition run_game :: "GameWorker \<Rightarrow> pykey \<Rightarrow> question list \<Rightarrow> outcome" where
  "run_game w gc shuffled =
     and_then (w, [Group_send gc Game_started], None)
       (\<lambda>w1. and_then (ask_questions w1 gc (get_random_questions shuffled 3) 0)
          (\<lambda>w2. end_game w2 gc))"

text \<open>
  \<open>create_game\<close>. The event carries the handle and the username (\<open>None\<close> or a string);
  the code is drawn before anything is checked. \<open>None\<close>: the draw has not returned.
\<close>

definition create_game :: "GameWorker \<Rightarrow> string \<Rightarrow> string option \<Rightarrow> int list \<Rightarrow> outcome option" where
  "create_game w cn uname draws =
     (case get_new_game_code w draws of
        None \<Rightarrow> None
      | Some game_code \<Rightarrow>
          Some (case uname of
              None \<Rightarrow> send_error w cn ''Some data is missing''
            | Some name \<Rightarrow>
                if name = [] then send_error w cn ''Some data is missing''
                else
                  and_then (if current_players w cn \<noteq> None then remove_player_from_game w cn
                            else (w, [], None))
                    (\<lambda>w1. case add_player_to_game
                                  (w1\<lparr>active_games :=
                                        (active_games w1)(StrKey game_code \<mapsto> GameState_init game_code)\<rparr>)
                                  cn name (StrKey game_code) of
                             Inl e \<Rightarrow> (w1\<lparr>active_games :=
                                        (active_games w1)(StrKey game_code \<mapsto> GameState_init game_code)\<rparr>,
                                       [], Some e)
                           | Inr (new_username, w2, es) \<Rightarrow>
                               (w2, es @ [Send cn (Game_created game_code)], None))))"

text \<open>\<open>add_user\<close>: the event carries the handle, the username and the code, each possibly \<open>None\<close>.\<close>

definition add_user :: "GameWorker \<Rightarrow> string \<Rightarrow> string option \<Rightarrow> pykey option \<Rightarrow> outcome" where
  "add_user w cn uname gcode =
     (case (uname, gcode) of
        (None, _) \<Rightarrow> send_error w cn ''Some data is missing''
      | (Some name, None) \<Rightarrow> send_error w cn ''Some data is missing''
      | (Some name, Some game_code) \<Rightarrow>
          if name = [] then send_error w cn ''Some data is missing''
          else if current_players w cn = Some game_code
          then send_error w cn ''You are in this game already''
          else
            and_then (if current_players w cn \<noteq> None then remove_player_from_game w cn
                      else (w, [], None))
              (\<lambda>w1. case active_games w1 game_code of
                       None \<Rightarrow>
                         send_error w1 cn
                           (''Game with code '' @ str_key game_code @ '' does not exist'')
                     | Some g \<Rightarrow>
                         if is_game_running g
                         then send_error w1 cn
                                (''Game with code '' @ str_key game_code @ '' is running already'')
                         else
                           (case add_player_to_game w1 cn name game_code of
                              Inl e \<Rightarrow> (w1, [], Some e)
                            | Inr (new_username, w2, es) \<Rightarrow>
                                (case active_games w2 game_code of
                                   None \<Rightarrow> (w2, es @ [Send cn (Join_successful new_username)],
                                            Some KeyError)
                                 | Some g2 \<Rightarrow>
                                     (w2, es @ [Send cn (Join_successful new_username),
                                                Group_send game_code
                                                  (Show_users (get_list_of_usernames g2))],
                                      None)))))"

definition remove_user :: "GameWorker \<Rightarrow> string \<Rightarrow> outcome" where
  "remove_user w cn =
     (if current_players w cn = None then send_error w cn ''You are not in a game''
      else remove_player_from_game w cn)"

text \<open>
  \<open>submit_answer\<close>. \<open>qid\<close> and \<open>ans\<close> are what \<open>int(event['question_id'])\<close> and
  \<open>int(event['answer'])\<close> evaluate to, \<open>None\<close> when the conversion raises. The question id
  is compared with \<open>self.current_question['id']\<close>, which raises when no question has
  been asked.
\<close>

definition submit_answer :: "GameWorker \<Rightarrow> string \<Rightarrow> int option \<Rightarrow> int option \<Rightarrow> outcome" where
  "submit_answer w cn qid ans =
     (case current_players w cn of
        None \<Rightarrow> send_error w cn ''You are not in a game''
      | Some game_code \<Rightarrow>
          (case qid of
             None \<Rightarrow> send_error w cn ''Wrong question id''
           | Some q_id \<Rightarrow>
               (case current_question w of
                  None \<Rightarrow> (w, [], Some TypeError)
                | Some cq \<Rightarrow>
                    if q_id \<noteq> asked_id cq then
                      (if asked_id cq > q_id \<and> q_id \<ge> 0
                       then send_error w cn ''Question already ended''
                       else send_error w cn ''Wrong question id'')
                    else
                      (case ans of
                         None \<Rightarrow> send_error w cn ''Wrong answer format''
                       | Some a \<Rightarrow>
                           (let sc = (if a = asked_correct_answer cq then 10 else 0) in
                            case active_games w game_code of
                              None \<Rightarrow> (w, [], Some KeyError)
                            | Some g \<Rightarrow>
                                (case set_answer g cn q_id sc of
                                   Inl e \<Rightarrow> (w, [], Some e)
                                 | Inr (first, g') \<Rightarrow>
                                     if first
                                     then (w\<lparr>active_games := (active_games w)(game_code \<mapsto> g')\<rparr>,
                                           [Send cn (Question_end (asked_id cq) (sc > 0))], None)
                                     else (w, [], None)))))))"

definition start_game :: "GameWorker \<Rightarrow> string \<Rightarrow> outcome" where
  "start_game w cn =
     (case current_players w cn of
        None \<Rightarrow> send_error w cn ''You are not in a game''
      | Some game_code \<Rightarrow>
          (case active_games w game_code of
             None \<Rightarrow> (w, [], Some KeyError)
           | Some g \<Rightarrow>
               (case GameState_start_game g of
                  (True, g') \<Rightarrow>
                    (w\<lparr>active_games := (active_games w)(game_code \<mapsto> g')\<rparr>,
                     [Create_task game_code], None)
                | (False, _) \<Rightarrow> send_error w cn ''Game is running already'')))"

section \<open>Auxiliary notions\<close>

text \<open>The room registered under \<open>gc\<close>, if there is one, is running.\<close>

definition still_running :: "pykey \<Rightarrow> GameWorker \<Rightarrow> bool" where
  "still_running gc w = (case active_games w gc of None \<Rightarrow> True | Some g \<Rightarrow> running g)"

text \<open>
  The part of \<open>add_user\<close> after the caller has been taken out of its previous room, and
  the part of \<open>create_game\<close> after that, named so that they can be reasoned about alone.
\<close>

definition join_checked :: "GameWorker \<Rightarrow> string \<Rightarrow> string \<Rightarrow> pykey \<Rightarrow> outcome" where
  "join_checked w cn name game_code =
     (case active_games w game_code of
        None \<Rightarrow> send_error w cn (''Game with code '' @ str_key game_code @ '' does not exist'')
      | Some g \<Rightarrow>
          if is_game_running g
          then send_error w cn (''Game with code '' @ str_key game_code @ '' is running already'')
          else
            (case add_player_to_game w cn name game_code of
               Inl e \<Rightarrow> (w, [], Some e)
             | Inr (new_username, w2, es) \<Rightarrow>
                 (case active_games w2 game_code of
                    None \<Rightarrow> (w2, es @ [Send cn (Join_successful new_username)], Some KeyError)
                  | Some g2 \<Rightarrow>
                      (w2, es @ [Send cn (Join_successful new_username),
                                 Group_send game_code (Show_users (get_list_of_usernames g2))],
                       None))))"

definition create_room :: "GameWorker \<Rightarrow> string \<Rightarrow> string \<Rightarrow> string \<Rightarrow> outcome" where
  "create_room w1 cn name c =
     (case add_player_to_game
              (w1\<lparr>active_games := (active_games w1)(StrKey c \<mapsto> GameState_init c)\<rparr>)
              cn name (StrKey c) of
         Inl e \<Rightarrow> (w1\<lparr>active_games := (active_games w1)(StrKey c \<mapsto> GameState_init c)\<rparr>,
                   [], Some e)
       | Inr (new_username, w2, es) \<Rightarrow> (w2, es @ [Send cn (Game_created c)], None))"

section \<open>States of the worker used in the examples\<close>

text \<open>
  \<open>lobby\<close>: handle \<open>h1\<close> has created room \<open>"7"\<close> as Alex. \<open>two_rooms\<close>: \<open>h2\<close> has then
  created room \<open>"8"\<close> as Bob, and both rooms have been started.
\<close>

definition lobby :: GameWorker where
  "lobby = \<lparr>active_games = [StrKey ''7'' \<mapsto>
               \<lparr>code = ''7'', users = [\<lparr>channel_name = ''h1'', username = ''Alex'', answers = []\<rparr>],
                running = False\<rparr>],
            current_players = [''h1'' \<mapsto> StrKey ''7''],
            current_question = None\<rparr>"

definition two_rooms :: GameWorker where
  "two_rooms = \<lparr>active_games = [StrKey ''7'' \<mapsto>
               \<lparr>code = ''7'', users = [\<lparr>channel_name = ''h1'', username = ''Alex'', answers = []\<rparr>],
                running = True\<rparr>,
               StrKey ''8'' \<mapsto>
               \<lparr>code = ''8'', users = [\<lparr>channel_name = ''h2'', username = ''Bob'', answers = []\<rparr>],
                running = True\<rparr>],
            current_players = [''h1'' \<mapsto> StrKey ''7'', ''h2'' \<mapsto> StrKey ''8''],
            current_question = None\<rparr>"

text \<open>
  \<open>round_played\<close>: Bob has joined Alex in room \<open>"7"\<close>, the room was started, question 0
  with correct answer 1 was asked, Alex answered 1 and Bob answered 2.
\<close>

definition round_played :: GameWorker where
  "round_played = \<lparr>active_games = [StrKey ''7'' \<mapsto>
               \<lparr>code = ''7'',
                users = [\<lparr>channel_name = ''h1'', username = ''Alex'',
                          answers = [\<lparr>question_id = 0, score = 10\<rparr>]\<rparr>,
                         \<lparr>channel_name = ''h2'', username = ''Bob'',
                          answers = [\<lparr>question_id = 0, score = 0\<rparr>]\<rparr>],
                running = True\<rparr>],
            current_players = [''h1'' \<mapsto> StrKey ''7'', ''h2'' \<mapsto> StrKey ''7''],
            current_question = Some \<lparr>asked_id = 0, asked_correct_answer = 1\<rparr>\<rparr>"

section \<open>Running the handlers on concrete events\<close>

lemmas run_defs = state_of_def effects_of_def raised_def create_game_def GameWorker_init_def
  send_error_def and_then_def add_player_to_game_def GameState_init_def GameState_add_user_def
  is_username_available_def str_int_def str_nat.simps digit_char_def submit_answer_def
  remove_player_from_game_def GameState_remove_user_def Let_def remove_user_def add_user_def
  start_game_def GameState_start_game_def ask_question_def set_answer_def is_game_running_def
  get_list_of_usernames_def suffixed_def free_index.simps QUESTION_LENGTH_def

lemma lobby_reached:
  "create_game GameWorker_init ''h1'' (Some ''Alex'') [7] =
     Some (lobby, [Group_add (StrKey ''7'') ''h1'', Send ''h1'' (Game_created ''7'')], None)"
  by (simp add: run_defs lobby_def)

lemma two_rooms_reached:
  "map_option (\<lambda>r. state_of (start_game (state_of (start_game (state_of r) ''h1'')) ''h2''))
     (create_game lobby ''h2'' (Some ''Bob'') [8]) = Some two_rooms"
  by (simp add: run_defs lobby_def two_rooms_def fun_upd_twist)

section \<open>Room codes\<close>

text \<open>
  C2. A \<open>createRoom\<close> is meant to return a code that no active room has. In the worker the
  rooms are stored under the string form of their code while \<open>_get_new_game_code\<close> looks
  the drawn integer up, so the first draw is always taken: with room \<open>"7"\<close> active and
  holding \<open>h1\<close>, a second \<open>create_game\<close> that draws 7 answers \<open>"7"\<close> again and puts a fresh
  room in the place of the first, while \<open>h1\<close> is still mapped to that code.
\<close>

theorem create_game_replaces_active_room:
  "case create_game GameWorker_init ''h1'' (Some ''Alex'') [7] of
     None \<Rightarrow> False
   | Some r1 \<Rightarrow>
       active_games (state_of r1) (StrKey ''7'') =
         Some \<lparr>code = ''7'', users = [\<lparr>channel_name = ''h1'', username = ''Alex'', answers = []\<rparr>],
               running = False\<rparr>
       \<and> (case create_game (state_of r1) ''h2'' (Some ''Bob'') [7] of
             None \<Rightarrow> False
           | Some r2 \<Rightarrow>
               effects_of r2 = [Group_add (StrKey ''7'') ''h2'', Send ''h2'' (Game_created ''7'')]
               \<and> raised r2 = None
               \<and> active_games (state_of r2) (StrKey ''7'') =
                   Some \<lparr>code = ''7'', users = [\<lparr>channel_name = ''h2'', username = ''Bob'', answers = []\<rparr>],
                         running = False\<rparr>
               \<and> current_players (state_of r2) ''h1'' = Some (StrKey ''7''))"
  by (simp add: run_defs)

section \<open>Faults\<close>

text \<open>
  C9. Every failure of a public operation is meant to reach the caller as an error event.
  A member who submits an answer before any question was asked gets none: the handler
  subscripts \<open>self.current_question\<close>, still \<open>None\<close>, and ends with an uncaught \<open>TypeError\<close>
  and no event sent.
\<close>

theorem submit_answer_before_first_question:
  "case create_game GameWorker_init ''h1'' (Some ''Alex'') [7] of
     None \<Rightarrow> False
   | Some r \<Rightarrow>
       raised r = None
       \<and> current_players (state_of r) ''h1'' = Some (StrKey ''7'')
       \<and> current_question (state_of r) = None
       \<and> raised (submit_answer (state_of r) ''h1'' (Some 0) (Some 1)) = Some TypeError
       \<and> effects_of (submit_answer (state_of r) ''h1'' (Some 0) (Some 1)) = []"
  by (simp add: run_defs)

section \<open>Which question a submission is checked against\<close>

text \<open>
  C3, as stated: a submission two or more questions behind the current one is answered
  with the wrong-question-id error. It is not: with question 2 current, a submission for
  question 0 is answered "Question already ended".
\<close>

theorem submit_answer_two_behind_counterexample:
  "current_question (state_of (ask_question lobby (StrKey ''7'')
       \<lparr>content = ''q'', choices = [''a'', ''b''], correct_answer = 1\<rparr> 2)) =
     Some \<lparr>asked_id = 2, asked_correct_answer = 1\<rparr>
   \<and> effects_of (submit_answer
        (state_of (ask_question lobby (StrKey ''7'')
           \<lparr>content = ''q'', choices = [''a'', ''b''], correct_answer = 1\<rparr> 2))
        ''h1'' (Some 0) (Some 1)) =
       [Send ''h1'' (Error ''Question already ended'')]"
  by (simp add: run_defs lobby_def)

text \<open>
  C3, amended: for a handle that is in a room and a question id different from the
  current one, every id that is non-negative and smaller than the current id, however far
  behind, is answered "Question already ended"; a negative id or one ahead of the current
  id is answered "Wrong question id". Nothing else happens.
\<close>

theorem submit_answer_other_question:
  assumes "current_players w cn = Some gc"
    and "current_question w = Some cq"
    and "qid \<noteq> asked_id cq"
  shows "submit_answer w cn (Some qid) ans =
           (w, [Send cn (Error (if 0 \<le> qid \<and> qid < asked_id cq
                                then ''Question already ended'' else ''Wrong question id''))], None)"
  using assms by (simp add: submit_answer_def send_error_def)

theorem submit_answer_other_question_witness:
  "effects_of (submit_answer
      (state_of (ask_question lobby (StrKey ''7'')
         \<lparr>content = ''q'', choices = [''a'', ''b''], correct_answer = 1\<rparr> 2))
      ''h1'' (Some 1) None) = [Send ''h1'' (Error ''Question already ended'')]
   \<and> effects_of (submit_answer
      (state_of (ask_question lobby (StrKey ''7'')
         \<lparr>content = ''q'', choices = [''a'', ''b''], correct_answer = 1\<rparr> 2))
      ''h1'' (Some 3) None) = [Send ''h1'' (Error ''Wrong question id'')]"
proof -
  let ?w = "state_of (ask_question lobby (StrKey ''7'')
         \<lparr>content = ''q'', choices = [''a'', ''b''], correct_answer = 1\<rparr> 2)"
  let ?cq = "\<lparr>asked_id = 2, asked_correct_answer = 1\<rparr>"
  have member: "current_players ?w ''h1'' = Some (StrKey ''7'')"
    and asked: "current_question ?w = Some ?cq"
    and behind: "1 \<noteq> asked_id ?cq"
    and ahead: "3 \<noteq> asked_id ?cq"
    by (simp_all add: lobby_def ask_question_def state_of_def)
  show ?thesis
    using submit_answer_other_question [OF member asked behind, of None]
      submit_answer_other_question [OF member asked ahead, of None]
    by (simp add: effects_of_def)
qed

text \<open>
  C1, as stated: each room's submissions are checked against that room's own question.
  They are not: room \<open>"7"\<close> asks its question 0, whose correct answer is 1, then room
  \<open>"8"\<close> asks its question 0, whose correct answer is 2; the member of room \<open>"7"\<close> who
  now submits 1 is told the answer is wrong.
\<close>

theorem shared_question_counterexample:
  "effects_of (submit_answer
      (state_of (ask_question
         (state_of (ask_question two_rooms (StrKey ''7'')
            \<lparr>content = ''q7'', choices = [''a'', ''b'', ''c''], correct_answer = 1\<rparr> 0))
         (StrKey ''8'') \<lparr>content = ''q8'', choices = [''a'', ''b'', ''c''], correct_answer = 2\<rparr> 0))
      ''h1'' (Some 0) (Some 1))
   = [Send ''h1'' (Question_end 0 False)]"
  by (simp add: run_defs two_rooms_def)

text \<open>
  C1, amended: the question a submission is checked against is state of the worker, one
  for all rooms. Asking a question in any room \<open>gc\<close> sets it and touches no room; after
  that a first submission for its id by a member of any room \<open>gc'\<close>, the same or another,
  is judged against the correct answer of that question.
\<close>

theorem question_shared_by_all_rooms:
  assumes "current_players w cn = Some gc'"
    and "active_games w gc' = Some g"
    and "get_user (users g) cn = Some u"
    and "\<not> answered (answers u) i"
  shows "current_question (state_of (ask_question w gc q i)) =
           Some \<lparr>asked_id = i, asked_correct_answer = correct_answer q\<rparr>
         \<and> active_games (state_of (ask_question w gc q i)) = active_games w
         \<and> current_players (state_of (ask_question w gc q i)) = current_players w
         \<and> effects_of (submit_answer (state_of (ask_question w gc q i)) cn (Some i) (Some a)) =
             [Send cn (Question_end i (a = correct_answer q))]"
  using assms
  by (simp add: ask_question_def state_of_def effects_of_def submit_answer_def set_answer_def)

theorem question_shared_by_all_rooms_witness:
  "effects_of (submit_answer (state_of (ask_question two_rooms (StrKey ''8'')
       \<lparr>content = ''q8'', choices = [''a'', ''b'', ''c''], correct_answer = 2\<rparr> 0))
     ''h1'' (Some 0) (Some 2)) = [Send ''h1'' (Question_end 0 True)]"
proof -
  let ?u = "\<lparr>channel_name = ''h1'', username = ''Alex'', answers = []\<rparr>"
  let ?g = "\<lparr>code = ''7'', users = [?u], running = True\<rparr>"
  have "current_players two_rooms ''h1'' = Some (StrKey ''7'')"
    and "active_games two_rooms (StrKey ''7'') = Some ?g"
    and "get_user (users ?g) ''h1'' = Some ?u"
    and "\<not> answered (answers ?u) 0"
    by (simp_all add: two_rooms_def)
  from question_shared_by_all_rooms [OF this, of "StrKey ''8''"
      "\<lparr>content = ''q8'', choices = [''a'', ''b'', ''c''], correct_answer = 2\<rparr>" 2]
  show ?thesis
    by simp
qed

section \<open>Leaving a room\<close>

text \<open>
  C8, as stated: once its only member has left, a room that is not running can no longer
  be joined. It can: after \<open>h1\<close> leaves room \<open>"7"\<close>, \<open>h2\<close> joins it under that code and
  gets the join confirmation, not an error.
\<close>

theorem remove_user_leaves_room_joinable_counterexample:
  "effects_of (remove_user lobby ''h1'') = [Group_discard (StrKey ''7'') ''h1'']
   \<and> effects_of (add_user (state_of (remove_user lobby ''h1'')) ''h2'' (Some ''Bob'')
        (Some (StrKey ''7''))) =
       [Group_add (StrKey ''7'') ''h2'', Send ''h2'' (Join_successful ''Bob''),
        Group_send (StrKey ''7'') (Show_users [''Bob''])]"
  by (simp add: run_defs lobby_def)

text \<open>
  C8, amended: when the only member of a room that is not running leaves it, the room
  stays registered under its code, with no members; a handle that is in no room and then
  joins with that code and a non-empty username is admitted under that username and
  becomes the only member shown.
\<close>

theorem emptied_room_stays_joinable:
  assumes "current_players w cn = Some gc"
    and "active_games w gc = Some g"
    and "users g = [u]"
    and "channel_name u = cn"
    and "\<not> running g"
    and "current_players w cn' = None"
    and "name \<noteq> []"
  shows "remove_user w cn =
           (w\<lparr>active_games := (active_games w)(gc \<mapsto> g\<lparr>users := []\<rparr>),
              current_players := (current_players w)(cn := None)\<rparr>,
            [Group_discard gc cn], None)
         \<and> effects_of (add_user (state_of (remove_user w cn)) cn' (Some name) (Some gc)) =
             [Group_add gc cn', Send cn' (Join_successful name), Group_send gc (Show_users [name])]
         \<and> raised (add_user (state_of (remove_user w cn)) cn' (Some name) (Some gc)) = None"
proof -
  have left: "remove_user w cn =
           (w\<lparr>active_games := (active_games w)(gc \<mapsto> g\<lparr>users := []\<rparr>),
              current_players := (current_players w)(cn := None)\<rparr>,
            [Group_discard gc cn], None)"
    using assms(1-4)
    by (simp add: remove_user_def remove_player_from_game_def GameState_remove_user_def)
  have other: "cn' \<noteq> cn"
    using assms(1,6) by auto
  show ?thesis
    unfolding left
    using assms(5-7) other
    by (simp add: add_user_def state_of_def effects_of_def raised_def and_then_def
        add_player_to_game_def GameState_add_user_def is_username_available_def
        is_game_running_def get_list_of_usernames_def send_error_def)
qed

theorem emptied_room_stays_joinable_witness:
  "effects_of (add_user (state_of (remove_user lobby ''h1'')) ''h3'' (Some ''Cy'')
      (Some (StrKey ''7''))) =
     [Group_add (StrKey ''7'') ''h3'', Send ''h3'' (Join_successful ''Cy''),
      Group_send (StrKey ''7'') (Show_users [''Cy''])]"
proof -
  let ?u = "\<lparr>channel_name = ''h1'', username = ''Alex'', answers = []\<rparr>"
  let ?g = "\<lparr>code = ''7'', users = [?u], running = False\<rparr>"
  have "current_players lobby ''h1'' = Some (StrKey ''7'')"
    and "active_games lobby (StrKey ''7'') = Some ?g"
    and "users ?g = [?u]"
    and "channel_name ?u = ''h1''"
    and "\<not> running ?g"
    and "current_players lobby ''h3'' = None"
    and "''Cy'' \<noteq> []"
    by (simp_all add: lobby_def)
  from emptied_room_stays_joinable [OF this] show ?thesis
    by blast
qed

section \<open>Joining from another room\<close>

text \<open>
  C10. A failed join is not atomic. A handle that is a member of room \<open>a\<close> and asks, with a
  non-empty username, to join another code \<open>gc\<close> that names no room, or a room that is
  running, is first taken out of room \<open>a\<close> and out of the handle-to-room mapping; only
  then is the error sent. Afterwards the handle is in no room.
\<close>

theorem failed_join_leaves_old_room:
  assumes "current_players w cn = Some a"
    and "active_games w a = Some ga"
    and "get_user (users ga) cn = Some u"
    and "name \<noteq> []"
    and "gc \<noteq> a"
    and "case active_games w gc of None \<Rightarrow> True | Some g \<Rightarrow> running g"
  shows "add_user w cn (Some name) (Some gc) =
           (w\<lparr>active_games := (active_games w)(a \<mapsto> ga\<lparr>users := remove1 u (users ga)\<rparr>),
              current_players := (current_players w)(cn := None)\<rparr>,
            [Group_discard a cn,
             Send cn (Error (''Game with code '' @ str_key gc @
                (if active_games w gc = None then '' does not exist'' else '' is running already'')))],
            None)"
  using assms
  by (auto simp add: add_user_def remove_player_from_game_def GameState_remove_user_def
      and_then_def send_error_def is_game_running_def split: option.splits)

theorem failed_join_leaves_old_room_witness:
  "add_user two_rooms ''h1'' (Some ''Alex'') (Some (StrKey ''8'')) =
     (two_rooms\<lparr>active_games := (active_games two_rooms)(StrKey ''7'' \<mapsto>
                  \<lparr>code = ''7'', users = [], running = True\<rparr>),
                current_players := (current_players two_rooms)(''h1'' := None)\<rparr>,
      [Group_discard (StrKey ''7'') ''h1'',
       Send ''h1'' (Error ''Game with code 8 is running already'')], None)
   \<and> add_user lobby ''h1'' (Some ''Alex'') (Some (StrKey ''9'')) =
     (lobby\<lparr>active_games := (active_games lobby)(StrKey ''7'' \<mapsto>
                  \<lparr>code = ''7'', users = [], running = False\<rparr>),
                current_players := (current_players lobby)(''h1'' := None)\<rparr>,
      [Group_discard (StrKey ''7'') ''h1'',
       Send ''h1'' (Error ''Game with code 9 does not exist'')], None)"
proof -
  let ?u = "\<lparr>channel_name = ''h1'', username = ''Alex'', answers = []\<rparr>"
  let ?g = "\<lparr>code = ''7'', users = [?u], running = True\<rparr>"
  let ?g' = "\<lparr>code = ''7'', users = [?u], running = False\<rparr>"
  have running_room: "current_players two_rooms ''h1'' = Some (StrKey ''7'')"
    "active_games two_rooms (StrKey ''7'') = Some ?g"
    "get_user (users ?g) ''h1'' = Some ?u"
    "''Alex'' \<noteq> []"
    "StrKey ''8'' \<noteq> StrKey ''7''"
    "case active_games two_rooms (StrKey ''8'') of None \<Rightarrow> True | Some g \<Rightarrow> running g"
    by (simp_all add: two_rooms_def)
  have no_room: "current_players lobby ''h1'' = Some (StrKey ''7'')"
    "active_games lobby (StrKey ''7'') = Some ?g'"
    "get_user (users ?g') ''h1'' = Some ?u"
    "''Alex'' \<noteq> []"
    "StrKey ''9'' \<noteq> StrKey ''7''"
    "case active_games lobby (StrKey ''9'') of None \<Rightarrow> True | Some g \<Rightarrow> running g"
    by (simp_all add: lobby_def)
  have "active_games two_rooms (StrKey ''8'') \<noteq> None" "active_games lobby (StrKey ''9'') = None"
    by (simp_all add: two_rooms_def lobby_def)
  then show ?thesis
    using failed_join_leaves_old_room [OF running_room] failed_join_leaves_old_room [OF no_room]
    by simp
qed

section \<open>Recording answers\<close>



lemma count_answers_sum: "count_answers qs s = s + sum_list (map score qs)"
  by (induction qs arbitrary: s) auto

lemma count_user_score_sum: "count_user_score u = sum_list (map score (answers u))"
  by (simp add: count_user_score_def count_answers_sum)



section \<open>Usernames\<close>

lemma free_index_lower: "index \<le> free_index us name index"
proof (induction us name index rule: free_index.induct)
  case (1 us name index)
  show ?case
  proof (cases "username_available us (suffixed name index)")
    case True
    then show ?thesis by (simp add: free_index.simps)
  next
    case False
    with 1 have "index + 1 \<le> free_index us name (index + 1)" by simp
    with False show ?thesis by (subst free_index.simps) simp
  qed
qed

lemma free_index_available: "username_available us (suffixed name (free_index us name index))"
proof (induction us name index rule: free_index.induct)
  case (1 us name index)
  show ?case
  proof (cases "username_available us (suffixed name index)")
    case True
    then show ?thesis by (simp add: free_index.simps)
  next
    case False
    with 1 show ?thesis by (subst free_index.simps) simp
  qed
qed

lemma free_index_first:
  "index \<le> j \<Longrightarrow> j < free_index us name index \<Longrightarrow> \<not> username_available us (suffixed name j)"
proof (induction us name index rule: free_index.induct)
  case (1 us name index)
  show ?case
  proof (cases "username_available us (suffixed name index)")
    case True
    with 1(2,3) show ?thesis by (simp add: free_index.simps)
  next
    case False
    show ?thesis
    proof (cases "j = index")
      case True
      with False show ?thesis by simp
    next
      case distinct: False
      from False "1.prems"(2) have "j < free_index us name (index + 1)"
        by (subst (asm) free_index.simps) simp
      moreover from distinct "1.prems"(1) have "index + 1 \<le> j" by simp
      ultimately show ?thesis using "1.IH" False by simp
    qed
  qed
qed

lemma free_index_least:
  "free_index us name index =
     (LEAST k. index \<le> k \<and> suffixed name k \<notin> set (map username us))"
proof (rule Least_equality [symmetric])
  show "index \<le> free_index us name index
      \<and> suffixed name (free_index us name index) \<notin> set (map username us)"
    using free_index_lower [of index us name] free_index_available [of us name index]
    by (simp add: username_available_iff)
next
  fix k
  assume "index \<le> k \<and> suffixed name k \<notin> set (map username us)"
  then show "free_index us name index \<le> k"
    using free_index_first [of index k us name]
    by (auto simp add: username_available_iff not_less [symmetric])
qed

text \<open>
  C6. The username a join ends up with is the requested name when no member of the room
  has it, and otherwise the requested name followed by \<open>" #k"\<close> for the smallest \<open>k \<ge> 2\<close>
  whose suffixed name no member has. That name is not in use in the room, the new member
  is appended after the others, and usernames that were pairwise different stay so. In a
  room where Alex is, a second Alex becomes \<open>Alex #2\<close> and a third \<open>Alex #3\<close>.
\<close>

theorem add_user_picks_first_free_name:
  "fst (GameState_add_user g cn name) =
     (if name \<notin> set (get_list_of_usernames g) then name
      else suffixed name (LEAST k. 2 \<le> k \<and> suffixed name k \<notin> set (get_list_of_usernames g)))
   \<and> fst (GameState_add_user g cn name) \<notin> set (get_list_of_usernames g)
   \<and> users (snd (GameState_add_user g cn name)) =
       users g @ [\<lparr>channel_name = cn, username = fst (GameState_add_user g cn name), answers = []\<rparr>]
   \<and> (distinct (get_list_of_usernames g) \<longrightarrow>
        distinct (get_list_of_usernames (snd (GameState_add_user g cn name))))"
proof -
  let ?k = "free_index (users g) name 2"
  have name': "fst (GameState_add_user g cn name) =
      (if name \<notin> set (get_list_of_usernames g) then name else suffixed name ?k)"
    by (simp add: GameState_add_user_def is_username_available_def username_available_iff
        get_list_of_usernames_def)
  have unused: "suffixed name ?k \<notin> set (get_list_of_usernames g)"
    using free_index_available [of "users g" name 2]
    by (simp add: username_available_iff get_list_of_usernames_def)
  have least: "?k = (LEAST k. 2 \<le> k \<and> suffixed name k \<notin> set (get_list_of_usernames g))"
    by (simp add: free_index_least get_list_of_usernames_def)
  have fresh: "fst (GameState_add_user g cn name) \<notin> set (get_list_of_usernames g)"
    using unused by (simp add: name')
  have appended: "users (snd (GameState_add_user g cn name)) =
       users g @ [\<lparr>channel_name = cn, username = fst (GameState_add_user g cn name), answers = []\<rparr>]"
    by (simp add: GameState_add_user_def Let_def)
  have "get_list_of_usernames (snd (GameState_add_user g cn name)) =
      get_list_of_usernames g @ [fst (GameState_add_user g cn name)]"
    by (simp add: appended get_list_of_usernames_def)
  then have "distinct (get_list_of_usernames g) \<longrightarrow>
        distinct (get_list_of_usernames (snd (GameState_add_user g cn name)))"
    using fresh by simp
  then show ?thesis
    using name' least fresh appended by simp
qed

theorem add_user_picks_first_free_name_witness:
  "fst (GameState_add_user
      \<lparr>code = ''7'',
       users = [\<lparr>channel_name = ''h1'', username = ''Alex'', answers = []\<rparr>,
                \<lparr>channel_name = ''h2'', username = ''Alex #2'', answers = []\<rparr>],
       running = False\<rparr> ''h3'' ''Alex'') = ''Alex #3''
   \<and> (LEAST k. 2 \<le> k \<and> suffixed ''Alex'' k \<notin> set [''Alex'', ''Alex #2'']) = 3
   \<and> distinct (get_list_of_usernames (snd (GameState_add_user
      \<lparr>code = ''7'',
       users = [\<lparr>channel_name = ''h1'', username = ''Alex'', answers = []\<rparr>,
                \<lparr>channel_name = ''h2'', username = ''Alex #2'', answers = []\<rparr>],
       running = False\<rparr> ''h3'' ''Alex'')))
   \<and> effects_of (add_user lobby ''h2'' (Some ''Alex'') (Some (StrKey ''7''))) =
       [Group_add (StrKey ''7'') ''h2'', Send ''h2'' (Join_successful ''Alex #2''),
        Group_send (StrKey ''7'') (Show_users [''Alex'', ''Alex #2''])]
   \<and> effects_of (add_user (state_of (add_user lobby ''h2'' (Some ''Alex'') (Some (StrKey ''7''))))
        ''h3'' (Some ''Alex'') (Some (StrKey ''7''))) =
       [Group_add (StrKey ''7'') ''h3'', Send ''h3'' (Join_successful ''Alex #3''),
        Group_send (StrKey ''7'') (Show_users [''Alex'', ''Alex #2'', ''Alex #3''])]"
proof -
  let ?g = "\<lparr>code = ''7'',
       users = [\<lparr>channel_name = ''h1'', username = ''Alex'', answers = []\<rparr>,
                \<lparr>channel_name = ''h2'', username = ''Alex #2'', answers = []\<rparr>],
       running = False\<rparr>"
  note rule = add_user_picks_first_free_name [of ?g "''h3''" "''Alex''"]
  have names: "get_list_of_usernames ?g = [''Alex'', ''Alex #2'']"
    by (simp add: get_list_of_usernames_def)
  have third: "fst (GameState_add_user ?g ''h3'' ''Alex'') = ''Alex #3''"
    by (simp add: run_defs)
  have "suffixed ''Alex'' (LEAST k. 2 \<le> k \<and> suffixed ''Alex'' k \<notin> set [''Alex'', ''Alex #2'']) =
      ''Alex #3''"
    using rule third names by simp
  moreover have "suffixed ''Alex'' 3 = ''Alex #3''"
    by (simp add: suffixed_def str_nat.simps digit_char_def)
  ultimately have least: "(LEAST k. 2 \<le> k \<and> suffixed ''Alex'' k \<notin> set [''Alex'', ''Alex #2'']) = 3"
    by (intro suffixed_inj [of "''Alex''"]) (rule trans, assumption, rule sym, assumption)
  have "distinct (get_list_of_usernames ?g)"
    by (simp add: names)
  with rule have unique: "distinct (get_list_of_usernames (snd (GameState_add_user ?g ''h3'' ''Alex'')))"
    by blast
  have second_join: "effects_of (add_user lobby ''h2'' (Some ''Alex'') (Some (StrKey ''7''))) =
       [Group_add (StrKey ''7'') ''h2'', Send ''h2'' (Join_successful ''Alex #2''),
        Group_send (StrKey ''7'') (Show_users [''Alex'', ''Alex #2''])]"
    by (simp add: run_defs lobby_def)
  have third_join: "effects_of (add_user (state_of (add_user lobby ''h2'' (Some ''Alex'') (Some (StrKey ''7''))))
        ''h3'' (Some ''Alex'') (Some (StrKey ''7''))) =
       [Group_add (StrKey ''7'') ''h3'', Send ''h3'' (Join_successful ''Alex #3''),
        Group_send (StrKey ''7'') (Show_users [''Alex'', ''Alex #2'', ''Alex #3''])]"
    by (simp add: run_defs lobby_def)
  show ?thesis
    using third least unique second_join third_join by blast
qed

section \<open>The end of a round\<close>

lemma remove_players_members:
  "active_games w gc = Some g \<Longrightarrow> users g = us \<Longrightarrow>
   \<forall>u \<in> set us. current_players w (channel_name u) = Some gc \<Longrightarrow>
   distinct (map channel_name us) \<Longrightarrow>
   remove_players w (map channel_name us) =
     (w\<lparr>active_games := (active_games w)(gc \<mapsto> g\<lparr>users := []\<rparr>),
        current_players := (\<lambda>cn. if cn \<in> set (map channel_name us) then None
                                  else current_players w cn)\<rparr>,
      map (Group_discard gc) (map channel_name us), None)"
proof (induction us arbitrary: w g)
  case Nil
  then have "g\<lparr>users := []\<rparr> = g" by simp
  with Nil show ?case by (simp add: map_upd_triv)
next
  case (Cons u us)
  let ?g' = "g\<lparr>users := us\<rparr>"
  let ?w' = "w\<lparr>active_games := (active_games w)(gc \<mapsto> ?g'),
               current_players := (current_players w)(channel_name u := None)\<rparr>"
  have one: "remove_player_from_game w (channel_name u) =
      (?w', [Group_discard gc (channel_name u)], None)"
    using Cons.prems
    by (simp add: remove_player_from_game_def GameState_remove_user_def)
  have rest: "remove_players ?w' (map channel_name us) =
     (?w'\<lparr>active_games := (active_games ?w')(gc \<mapsto> ?g'\<lparr>users := []\<rparr>),
        current_players := (\<lambda>cn. if cn \<in> set (map channel_name us) then None
                                  else current_players ?w' cn)\<rparr>,
      map (Group_discard gc) (map channel_name us), None)"
  proof (rule Cons.IH)
    show "active_games ?w' gc = Some ?g'" by simp
    show "users ?g' = us" by simp
    show "\<forall>v \<in> set us. current_players ?w' (channel_name v) = Some gc"
    proof
      fix v
      assume v: "v \<in> set us"
      with Cons.prems(4) have "channel_name v \<noteq> channel_name u"
        by (auto simp add: image_iff)
      with v Cons.prems(3) show "current_players ?w' (channel_name v) = Some gc"
        by simp
    qed
    show "distinct (map channel_name us)"
      using Cons.prems(4) by simp
  qed
  have same: "(\<lambda>cn. if cn \<in> channel_name ` set us then None else current_players ?w' cn) =
      (\<lambda>cn. if cn = channel_name u \<or> cn \<in> channel_name ` set us then None
            else current_players w cn)"
    by (rule ext) simp
  have rooms: "(\<lambda>a. if a = gc then Some (g\<lparr>users := []\<rparr>) else active_games w a) =
      (active_games w)(gc \<mapsto> g\<lparr>users := []\<rparr>)"
    by (rule ext) simp
  show ?case
    by (simp add: one rest and_then_def same rooms)
qed

lemma round_played_reached:
  "state_of (submit_answer (state_of (submit_answer (state_of (ask_question
      (state_of (start_game (state_of (add_user lobby ''h2'' (Some ''Bob'') (Some (StrKey ''7''))))
         ''h1''))
      (StrKey ''7'') \<lparr>content = ''q'', choices = [''a'', ''b'', ''c''], correct_answer = 1\<rparr> 0))
      ''h1'' (Some 0) (Some 1))) ''h2'' (Some 0) (Some 2)) = round_played"
  by (simp add: run_defs lobby_def round_played_def fun_upd_twist)

lemma ask_questions_rooms:
  "active_games (state_of (ask_questions w gc qs i)) = active_games w
   \<and> current_players (state_of (ask_questions w gc qs i)) = current_players w
   \<and> raised (ask_questions w gc qs i) = None"
proof (induction qs arbitrary: w i)
  case Nil
  show ?case by (simp add: state_of_def raised_def)
next
  case (Cons q qs)
  let ?w' = "w\<lparr>current_question :=
      Some \<lparr>asked_id = i, asked_correct_answer = correct_answer q\<rparr>\<rparr>"
  obtain w2 es r where rest: "ask_questions ?w' gc qs (i + 1) = (w2, es, r)"
    by (cases "ask_questions ?w' gc qs (i + 1)") auto
  with Cons.IH [of ?w' "i + 1"] show ?case
    by (simp add: ask_question_def and_then_def state_of_def raised_def)
qed

lemma end_game_members:
  assumes room: "active_games w gc = Some g"
    and mapped: "\<forall>u \<in> set (users g). current_players w (channel_name u) = Some gc"
    and once: "distinct (map channel_name (users g))"
  shows "end_game w gc =
     (w\<lparr>active_games := (active_games w)(gc := None),
        current_players := (\<lambda>cn. if cn \<in> set (get_list_of_users_channels g) then None
                                  else current_players w cn)\<rparr>,
      Group_send gc (Game_ended (map (\<lambda>u. (username u, sum_list (map score (answers u)))) (users g)))
        # map (Group_discard gc) (get_list_of_users_channels g),
      None)"
proof -
  have scores: "get_all_scores g =
      map (\<lambda>u. (username u, sum_list (map score (answers u)))) (users g)"
    by (simp add: get_all_scores_def count_user_score_sum)
  have members: "remove_players w (get_list_of_users_channels g) =
     (w\<lparr>active_games := (active_games w)(gc \<mapsto> g\<lparr>users := []\<rparr>),
        current_players := (\<lambda>cn. if cn \<in> set (get_list_of_users_channels g) then None
                                  else current_players w cn)\<rparr>,
      map (Group_discard gc) (get_list_of_users_channels g), None)"
    unfolding get_list_of_users_channels_def
    using room refl mapped once by (rule remove_players_members)
  show ?thesis
    by (simp add: end_game_def remove_game_def room scores members and_then_def)
qed

text \<open>
  C7. When the last question's wait is over, the round first broadcasts to the room the
  final scoreboard: the room's members in the order of the membership list, which is the
  order they joined in, each with the sum of the scores of the answers recorded for that
  member. Then it dissolves the room: each member is taken out of the room's group and
  out of the handle-to-room mapping, and the room is removed from the registry, so that
  its code names no room any more. This holds for a room whose members are all mapped to
  its code, each handle being a member once.
\<close>

theorem end_game_scores_then_dissolves:
  assumes room: "active_games w gc = Some g"
    and mapped: "\<forall>u \<in> set (users g). current_players w (channel_name u) = Some gc"
    and once: "distinct (map channel_name (users g))"
  shows "end_game w gc =
     (w\<lparr>active_games := (active_games w)(gc := None),
        current_players := (\<lambda>cn. if cn \<in> set (get_list_of_users_channels g) then None
                                  else current_players w cn)\<rparr>,
      Group_send gc (Game_ended (map (\<lambda>u. (username u, sum_list (map score (answers u)))) (users g)))
        # map (Group_discard gc) (get_list_of_users_channels g),
      None)
    \<and> effects_of (run_game w gc shuffled) =
        Group_send gc Game_started
        # effects_of (ask_questions w gc (get_random_questions shuffled 3) 0)
        @ Group_send gc (Game_ended (map (\<lambda>u. (username u, sum_list (map score (answers u)))) (users g)))
        # map (Group_discard gc) (get_list_of_users_channels g)
    \<and> raised (run_game w gc shuffled) = None
    \<and> active_games (state_of (run_game w gc shuffled)) gc = None
    \<and> (\<forall>u \<in> set (users g). current_players (state_of (run_game w gc shuffled)) (channel_name u) = None)"
proof -
  let ?qs = "get_random_questions shuffled 3"
  obtain w2 es r where asked: "ask_questions w gc ?qs 0 = (w2, es, r)"
    by (cases "ask_questions w gc ?qs 0") auto
  with ask_questions_rooms [of w gc ?qs 0]
  have same: "active_games w2 = active_games w" "current_players w2 = current_players w" "r = None"
    by (simp_all add: state_of_def raised_def)
  have "end_game w2 gc =
     (w2\<lparr>active_games := (active_games w2)(gc := None),
        current_players := (\<lambda>cn. if cn \<in> set (get_list_of_users_channels g) then None
                                  else current_players w2 cn)\<rparr>,
      Group_send gc (Game_ended (map (\<lambda>u. (username u, sum_list (map score (answers u)))) (users g)))
        # map (Group_discard gc) (get_list_of_users_channels g),
      None)"
    using room mapped once by (intro end_game_members) (simp_all add: same)
  then have whole: "run_game w gc shuffled =
     (w2\<lparr>active_games := (active_games w2)(gc := None),
        current_players := (\<lambda>cn. if cn \<in> set (get_list_of_users_channels g) then None
                                  else current_players w2 cn)\<rparr>,
      Group_send gc Game_started # es
        @ Group_send gc (Game_ended (map (\<lambda>u. (username u, sum_list (map score (answers u)))) (users g)))
        # map (Group_discard gc) (get_list_of_users_channels g),
      None)"
    by (simp add: run_game_def and_then_def asked same)
  have members: "\<forall>u \<in> set (users g). channel_name u \<in> set (get_list_of_users_channels g)"
    by (simp add: get_list_of_users_channels_def)
  show ?thesis
    using end_game_members [OF room mapped once] members
    by (simp add: whole asked state_of_def effects_of_def raised_def)
qed

theorem end_game_scores_then_dissolves_witness:
  "effects_of (end_game round_played (StrKey ''7'')) =
     [Group_send (StrKey ''7'') (Game_ended [(''Alex'', 10), (''Bob'', 0)]),
      Group_discard (StrKey ''7'') ''h1'', Group_discard (StrKey ''7'') ''h2'']
   \<and> active_games (state_of (end_game round_played (StrKey ''7''))) (StrKey ''7'') = None
   \<and> current_players (state_of (end_game round_played (StrKey ''7''))) ''h1'' = None
   \<and> current_players (state_of (end_game round_played (StrKey ''7''))) ''h2'' = None"
proof -
  let ?g = "\<lparr>code = ''7'',
                users = [\<lparr>channel_name = ''h1'', username = ''Alex'',
                          answers = [\<lparr>question_id = 0, score = 10\<rparr>]\<rparr>,
                         \<lparr>channel_name = ''h2'', username = ''Bob'',
                          answers = [\<lparr>question_id = 0, score = 0\<rparr>]\<rparr>],
                running = True\<rparr>"
  have "active_games round_played (StrKey ''7'') = Some ?g"
    and "\<forall>u \<in> set (users ?g). current_players round_played (channel_name u) = Some (StrKey ''7'')"
    and "distinct (map channel_name (users ?g))"
    by (simp_all add: round_played_def)
  from end_game_scores_then_dissolves [OF this, of "[]"]
  have "end_game round_played (StrKey ''7'') =
     (round_played\<lparr>active_games := (active_games round_played)(StrKey ''7'' := None),
        current_players := (\<lambda>cn. if cn \<in> set (get_list_of_users_channels ?g) then None
                                  else current_players round_played cn)\<rparr>,
      Group_send (StrKey ''7'') (Game_ended (map (\<lambda>u. (username u, sum_list (map score (answers u)))) (users ?g)))
        # map (Group_discard (StrKey ''7'')) (get_list_of_users_channels ?g),
      None)"
    by blast
  then show ?thesis
    by (simp add: effects_of_def state_of_def get_list_of_users_channels_def)
qed

section \<open>The running flag\<close>

lemma state_of_triple: "state_of (w, es, x) = w"
  by (simp add: state_of_def)

lemma still_running_and_then:
  assumes "still_running gc (state_of r)"
    and "\<And>w. still_running gc w \<Longrightarrow> still_running gc (state_of (f w))"
  shows "still_running gc (state_of (and_then r f))"
proof (cases r)
  case (fields w es x)
  show ?thesis
  proof (cases x)
    case None
    obtain w' es' x' where next_step: "f w = (w', es', x')"
      by (cases "f w") auto
    from fields assms(1) have "still_running gc (state_of (f w))"
      by (intro assms(2)) (simp add: state_of_triple)
    with fields None next_step show ?thesis
      by (simp add: and_then_def state_of_triple)
  next
    case (Some e)
    with fields assms(1) show ?thesis
      by (simp add: and_then_def state_of_triple)
  qed
qed

lemma still_running_remove_player:
  "still_running gc w \<Longrightarrow> still_running gc (state_of (remove_player_from_game w cn))"
  by (auto simp add: still_running_def remove_player_from_game_def GameState_remove_user_def
      state_of_def split: option.splits)

lemma still_running_remove_players:
  "still_running gc w \<Longrightarrow> still_running gc (state_of (remove_players w ps))"
proof (induction ps arbitrary: w)
  case Nil
  then show ?case by (simp add: state_of_def)
next
  case (Cons p ps)
  show ?case
    unfolding remove_players.simps
    by (rule still_running_and_then) (simp_all add: Cons still_running_remove_player)
qed

lemma still_running_remove_game:
  "still_running gc w \<Longrightarrow> still_running gc (state_of (remove_game w gc'))"
proof (cases "active_games w gc'")
  case None
  assume "still_running gc w"
  with None show ?thesis by (simp add: remove_game_def state_of_def)
next
  case (Some g)
  assume run: "still_running gc w"
  have "still_running gc (state_of (and_then (remove_players w (get_list_of_users_channels g))
            (\<lambda>w'. case active_games w' gc' of
                     None \<Rightarrow> (w', [], Some KeyError)
                   | Some _ \<Rightarrow> (w'\<lparr>active_games := (active_games w')(gc' := None)\<rparr>, [], None))))"
  proof (rule still_running_and_then)
    show "still_running gc (state_of (remove_players w (get_list_of_users_channels g)))"
      using run by (rule still_running_remove_players)
  next
    fix w'
    assume "still_running gc w'"
    then show "still_running gc (state_of (case active_games w' gc' of
                     None \<Rightarrow> (w', [], Some KeyError)
                   | Some _ \<Rightarrow> (w'\<lparr>active_games := (active_games w')(gc' := None)\<rparr>, [], None)))"
      by (auto simp add: still_running_def state_of_def split: option.splits)
  qed
  with Some show ?thesis by (simp add: remove_game_def)
qed

lemma still_running_end_game:
  "still_running gc w \<Longrightarrow> still_running gc (state_of (end_game w gc'))"
proof (cases "active_games w gc'")
  case None
  assume "still_running gc w"
  with None show ?thesis by (simp add: end_game_def state_of_def)
next
  case (Some g)
  assume run: "still_running gc w"
  have "still_running gc (state_of (and_then (w, [Group_send gc' (Game_ended (get_all_scores g))], None)
            (\<lambda>w'. remove_game w' gc')))"
    by (rule still_running_and_then) (simp_all add: run state_of_triple still_running_remove_game)
  with Some show ?thesis by (simp add: end_game_def)
qed

lemma still_running_ask_question:
  "still_running gc w \<Longrightarrow> still_running gc (state_of (ask_question w gc' q i))"
  by (simp add: still_running_def ask_question_def state_of_def)

lemma still_running_ask_questions:
  "still_running gc w \<Longrightarrow> still_running gc (state_of (ask_questions w gc' qs i))"
proof (induction qs arbitrary: w i)
  case Nil
  then show ?case by (simp add: state_of_def)
next
  case (Cons q qs)
  show ?case
    unfolding ask_questions.simps
    by (rule still_running_and_then) (simp_all add: Cons still_running_ask_question)
qed

lemma still_running_run_game:
  "still_running gc w \<Longrightarrow> still_running gc (state_of (run_game w gc' shuffled))"
  unfolding run_game_def
  by (intro still_running_and_then)
    (simp_all add: state_of_triple still_running_ask_questions still_running_end_game)

lemma still_running_remove_user:
  "still_running gc w \<Longrightarrow> still_running gc (state_of (remove_user w cn))"
  by (simp add: remove_user_def send_error_def still_running_remove_player state_of_triple)

lemma still_running_submit_answer:
  "still_running gc w \<Longrightarrow> still_running gc (state_of (submit_answer w cn qid ans))"
  by (auto simp add: still_running_def submit_answer_def send_error_def set_answer_def
      state_of_def Let_def split: option.splits if_splits)

lemma still_running_start_game:
  "still_running gc w \<Longrightarrow> still_running gc (state_of (start_game w cn))"
  by (auto simp add: still_running_def start_game_def send_error_def GameState_start_game_def
      state_of_def split: option.splits if_splits)

lemma running_GameState_add_user: "running (snd (GameState_add_user g cn name)) = running g"
  by (simp add: GameState_add_user_def Let_def)

lemma still_running_add_player:
  assumes "still_running gc w" and "add_player_to_game w cn name gc' = Inr (n, w', es)"
  shows "still_running gc w'"
proof (cases "active_games w gc'")
  case None
  with assms(2) show ?thesis by (simp add: add_player_to_game_def)
next
  case (Some g)
  obtain n' g' where joined: "GameState_add_user g cn name = (n', g')"
    by (cases "GameState_add_user g cn name") auto
  with running_GameState_add_user [of g cn name] have flag: "running g' = running g"
    by simp
  from assms(2) Some joined
  have "w' = w\<lparr>active_games := (active_games w)(gc' \<mapsto> g'),
                current_players := (current_players w)(cn \<mapsto> gc')\<rparr>"
    by (simp add: add_player_to_game_def)
  with assms(1) Some flag show ?thesis
    by (auto simp add: still_running_def)
qed

lemma still_running_join:
  assumes "still_running gc w"
  shows "still_running gc (state_of (join_checked w cn name game_code))"
proof (cases "active_games w game_code")
  case None
  with assms show ?thesis
    by (simp add: join_checked_def send_error_def state_of_triple)
next
  case (Some g)
  show ?thesis
  proof (cases "is_game_running g")
    case True
    with Some assms show ?thesis
      by (simp add: join_checked_def send_error_def state_of_triple)
  next
    case False
    show ?thesis
    proof (cases "add_player_to_game w cn name game_code")
      case (Inl e)
      with Some False assms show ?thesis
        by (simp add: join_checked_def state_of_triple)
    next
      case (Inr added)
      obtain n w2 es where added: "added = (n, w2, es)"
        by (cases added) auto
      with Inr assms have "still_running gc w2"
        by (auto dest: still_running_add_player)
      with Some False Inr added show ?thesis
        by (cases "active_games w2 game_code") (simp_all add: join_checked_def state_of_triple)
    qed
  qed
qed

lemma add_user_join_checked:
  "add_user w cn (Some name) (Some game_code) =
     (if name = [] then send_error w cn ''Some data is missing''
      else if current_players w cn = Some game_code
      then send_error w cn ''You are in this game already''
      else and_then (if current_players w cn \<noteq> None then remove_player_from_game w cn
                     else (w, [], None))
             (\<lambda>w1. join_checked w1 cn name game_code))"
  by (simp add: add_user_def join_checked_def)

lemma still_running_add_user:
  assumes "still_running gc w"
  shows "still_running gc (state_of (add_user w cn uname gcode))"
proof (cases uname)
  case None
  with assms show ?thesis by (simp add: add_user_def send_error_def state_of_triple)
next
  case (Some name)
  show ?thesis
  proof (cases gcode)
    case None
    with Some assms show ?thesis by (simp add: add_user_def send_error_def state_of_triple)
  next
    case inner: (Some game_code)
    have left: "still_running gc (state_of (if current_players w cn \<noteq> None
        then remove_player_from_game w cn else (w, [], None)))"
      using assms by (simp add: still_running_remove_player state_of_triple)
    have "still_running gc (state_of (and_then
        (if current_players w cn \<noteq> None then remove_player_from_game w cn else (w, [], None))
        (\<lambda>w1. join_checked w1 cn name game_code)))"
      using left by (rule still_running_and_then) (rule still_running_join)
    with assms show ?thesis
      unfolding Some inner add_user_join_checked
      by (simp add: send_error_def state_of_triple)
  qed
qed

lemma still_running_create_room:
  assumes "still_running gc w1" and "gc \<noteq> StrKey c"
  shows "still_running gc (state_of (create_room w1 cn name c))"
proof -
  let ?w = "w1\<lparr>active_games := (active_games w1)(StrKey c \<mapsto> GameState_init c)\<rparr>"
  have fresh: "still_running gc ?w"
    using assms by (simp add: still_running_def)
  show ?thesis
  proof (cases "add_player_to_game ?w cn name (StrKey c)")
    case (Inl e)
    with fresh show ?thesis by (simp add: create_room_def state_of_triple)
  next
    case (Inr added)
    obtain n w2 es where added: "added = (n, w2, es)"
      by (cases added) auto
    with Inr fresh have "still_running gc w2"
      by (auto dest: still_running_add_player)
    with Inr added show ?thesis by (simp add: create_room_def state_of_triple)
  qed
qed

lemma create_game_create_room:
  "get_new_game_code w draws = Some c \<Longrightarrow>
   create_game w cn (Some name) draws =
     Some (if name = [] then send_error w cn ''Some data is missing''
           else and_then (if current_players w cn \<noteq> None then remove_player_from_game w cn
                          else (w, [], None))
                  (\<lambda>w1. create_room w1 cn name c))"
  by (simp add: create_game_def create_room_def)

lemma still_running_create_game:
  assumes "still_running gc w"
    and "get_new_game_code w draws = Some c"
    and "gc \<noteq> StrKey c"
  shows "case create_game w cn uname draws of
           None \<Rightarrow> False | Some r \<Rightarrow> still_running gc (state_of r)"
proof (cases uname)
  case None
  with assms show ?thesis by (simp add: create_game_def send_error_def state_of_triple)
next
  case (Some name)
  have left: "still_running gc (state_of (if current_players w cn \<noteq> None
      then remove_player_from_game w cn else (w, [], None)))"
    using assms(1) by (simp add: still_running_remove_player state_of_triple)
  have "still_running gc (state_of (and_then
      (if current_players w cn \<noteq> None then remove_player_from_game w cn else (w, [], None))
      (\<lambda>w1. create_room w1 cn name c)))"
    using left by (rule still_running_and_then) (rule still_running_create_room [OF _ assms(3)])
  with assms(1) show ?thesis
    unfolding Some create_game_create_room [OF assms(2)]
    by (simp add: send_error_def state_of_triple)
qed

text \<open>
  What the handlers do keep. A room is created not running; \<open>GameState.start_game\<close>
  answers whether the room was not running and leaves it running in either case; the
  first \<open>start_game\<close> of a member of a room that is not running sets the flag and spawns
  the round task, and a \<open>start_game\<close> of a member of a running room is answered "Game is
  running already" and changes nothing. A code whose room is running names, after any
  handler or step of the round, a running room or none, except after a \<open>create_game\<close>
  that draws this very code: that one is the subject of the theorem that follows.
\<close>

lemma running_kept_unless_code_redrawn:
  "running (GameState_init c) = False
   \<and> GameState_start_game g = (\<not> running g, g\<lparr>running := True\<rparr>)
   \<and> (current_players w cn = Some gc \<and> active_games w gc = Some g \<and> \<not> running g \<longrightarrow>
        start_game w cn =
          (w\<lparr>active_games := (active_games w)(gc \<mapsto> g\<lparr>running := True\<rparr>)\<rparr>,
           [Create_task gc], None))
   \<and> (current_players w cn = Some gc \<and> active_games w gc = Some g \<and> running g \<longrightarrow>
        start_game w cn = (w, [Send cn (Error ''Game is running already'')], None))
   \<and> (still_running gc w \<longrightarrow>
        still_running gc (state_of (start_game w cn'))
        \<and> still_running gc (state_of (add_user w cn' uname gcode))
        \<and> still_running gc (state_of (remove_user w cn'))
        \<and> still_running gc (state_of (submit_answer w cn' qid ans))
        \<and> still_running gc (state_of (ask_question w gc' q i))
        \<and> still_running gc (state_of (end_game w gc'))
        \<and> (get_new_game_code w draws = Some c' \<and> gc \<noteq> StrKey c' \<longrightarrow>
             (case create_game w cn' uname draws of
                None \<Rightarrow> False
              | Some r \<Rightarrow> still_running gc (state_of r))))"
proof -
  have created: "running (GameState_init c) = False"
    by (simp add: GameState_init_def)
  have flag: "GameState_start_game g = (\<not> running g, g\<lparr>running := True\<rparr>)"
    by (simp add: GameState_start_game_def)
  have first: "start_game w cn =
          (w\<lparr>active_games := (active_games w)(gc \<mapsto> g\<lparr>running := True\<rparr>)\<rparr>,
           [Create_task gc], None)"
    if "current_players w cn = Some gc" "active_games w gc = Some g" "\<not> running g"
    using that by (simp add: start_game_def GameState_start_game_def)
  have later: "start_game w cn = (w, [Send cn (Error ''Game is running already'')], None)"
    if "current_players w cn = Some gc" "active_games w gc = Some g" "running g"
    using that by (simp add: start_game_def GameState_start_game_def send_error_def)
  have kept: "still_running gc (state_of (start_game w cn'))
        \<and> still_running gc (state_of (add_user w cn' uname gcode))
        \<and> still_running gc (state_of (remove_user w cn'))
        \<and> still_running gc (state_of (submit_answer w cn' qid ans))
        \<and> still_running gc (state_of (ask_question w gc' q i))
        \<and> still_running gc (state_of (end_game w gc'))
        \<and> (get_new_game_code w draws = Some c' \<and> gc \<noteq> StrKey c' \<longrightarrow>
             (case create_game w cn' uname draws of
                None \<Rightarrow> False
              | Some r \<Rightarrow> still_running gc (state_of r)))"
    if run: "still_running gc w"
    using still_running_start_game [OF run] still_running_add_user [OF run]
      still_running_remove_user [OF run] still_running_submit_answer [OF run]
      still_running_ask_question [OF run] still_running_end_game [OF run]
      still_running_create_game [OF run]
    by blast
  show ?thesis
    using created flag first later kept by blast
qed

text \<open>
  C5. The running flag of a room is meant to go from false to true once and never back,
  so that every \<open>startRoom\<close> after the first fails with "Game is running already". It
  does not hold in the worker: \<open>h1\<close> starts room \<open>"7"\<close>, which becomes running; a
  \<open>create_game\<close> by \<open>h2\<close> then draws 7, which \<open>_get_new_game_code\<close> accepts because it
  looks the integer up among string keys, and registers a fresh room that is not running
  under \<open>"7"\<close>, while \<open>h1\<close> stays mapped to that code; the next \<open>start_game\<close> of \<open>h1\<close>
  succeeds and spawns a second round for the code.
\<close>

theorem start_game_succeeds_twice_after_code_reuse:
  "effects_of (start_game lobby ''h1'') = [Create_task (StrKey ''7'')]
   \<and> map_option running (active_games (state_of (start_game lobby ''h1'')) (StrKey ''7'')) =
       Some True
   \<and> (case create_game (state_of (start_game lobby ''h1'')) ''h2'' (Some ''Bob'') [7] of
        None \<Rightarrow> False
      | Some r \<Rightarrow>
          effects_of r = [Group_add (StrKey ''7'') ''h2'', Send ''h2'' (Game_created ''7'')]
          \<and> raised r = None
          \<and> map_option running (active_games (state_of r) (StrKey ''7'')) = Some False
          \<and> current_players (state_of r) ''h1'' = Some (StrKey ''7'')
          \<and> effects_of (start_game (state_of r) ''h1'') = [Create_task (StrKey ''7'')]
          \<and> raised (start_game (state_of r) ''h1'') = None)"
  by (simp add: run_defs lobby_def)

end
